theory Spec2Isabelle
  imports Main "HOL-Library.Multiset" "HOL-Library.Sublist"
begin

section \<open>OpenHTF entry point: phases, the TestPhase decorator and the Test object\<close>

text \<open>
  The development embeds \<^verbatim>\<open>src/openhtf/__init__.py\<close>: the decorator \<^verbatim>\<open>TestPhase\<close>
  (lines 105-130) and the class \<^verbatim>\<open>Test\<close> (lines 133-234) with its constructor, the
  property \<^verbatim>\<open>plug_type_map\<close>, \<^verbatim>\<open>AddOutputCallback\<close>, \<^verbatim>\<open>OutputTestRecord\<close> and the
  effect of \<^verbatim>\<open>Execute\<close> on the Test object.
\<close>

subsection \<open>Python values, exceptions and objects\<close>

text \<open>
  Objects are known by their identity. A plug type is a class object and is compared
  with \<^verbatim>\<open>is not\<close> (line 172), so it is represented by its identity. A phase is a
  function object that lives in a store; the Test keeps references into that store.
\<close>

type_synonym ref = nat
type_synonym plug_type = nat

text \<open>
  The values that the options of the decorator and the attributes of a phase can hold.
  \<open>PyNone\<close> is Python's \<^verbatim>\<open>None\<close>; numbers are integers (nothing below depends on the
  number held); \<open>PyObj\<close> is a reference to any other object, for instance a
  \<^verbatim>\<open>run_if\<close> callback, a parameter list or a test record.
\<close>

datatype pyval = PyNone | PyNum int | PyStr string | PyObj ref

text \<open>
  The exceptions: \<^verbatim>\<open>InvalidTestPhaseError(phase_func, 'Not enough args')\<close> (line 123),
  \<^verbatim>\<open>plugs.DuplicatePlugError('Duplicate plug with different type: %s' % plug)\<close>
  (lines 173-174, the plug name is kept), and any exception raised by code outside this
  file (an output callback, the introspection of the caller, the union of parameters).
\<close>

datatype error =
    InvalidTestPhaseError ref
  | DuplicatePlugError string
  | OtherError string

text \<open>
  What \<^verbatim>\<open>inspect.getargspec\<close> returns for a function: the names of the positional
  parameters (with or without a default), the name of the \<^verbatim>\<open>*args\<close> parameter, the
  name of the \<^verbatim>\<open>**kwargs\<close> parameter (the field \<^verbatim>\<open>keywords\<close> of the result,
  here \<open>varkw\<close>), and the default values, which belong to the last parameters of
  \<open>args\<close>.
\<close>

record argspec =
  args :: "string list"
  varargs :: "string option"
  varkw :: "string option"
  defaults :: "pyval list"

text \<open>
  A phase is a Python function object. An attribute that may be missing is an option:
  \<open>None\<close> is "no such attribute" (\<^verbatim>\<open>hasattr\<close> is false), \<open>Some PyNone\<close> is an attribute
  that holds \<^verbatim>\<open>None\<close>. The attribute \<^verbatim>\<open>plugs\<close> is a dict from plug name to plug type,
  kept as the list of its items in the order \<^verbatim>\<open>iteritems()\<close> yields them.
\<close>

record func_obj =
  getargspec :: argspec
  timeout_s :: "pyval option"
  run_if :: "pyval option"
  plugs :: "(string \<times> plug_type) list option"
  parameters :: "pyval option"

type_synonym heap = "ref \<Rightarrow> func_obj"

text \<open>
  The number of positional arguments a call must supply at least: the parameters without
  a default.
\<close>

definition min_required :: "func_obj \<Rightarrow> nat" where
  "min_required f = length (args (getargspec f)) - length (defaults (getargspec f))"

text \<open>The keys of a Python dict are pairwise different.\<close>

definition wf_dict :: "(string \<times> 'v) list \<Rightarrow> bool" where
  "wf_dict d = distinct (map fst d)"

definition wf_phase :: "func_obj \<Rightarrow> bool" where
  "wf_phase f =
     (length (defaults (getargspec f)) \<le> length (args (getargspec f)) \<and>
      (case plugs f of None \<Rightarrow> True | Some d \<Rightarrow> wf_dict d))"

subsection \<open>The decorator TestPhase (lines 105-130)\<close>

text \<open>
  \<^verbatim>\<open>Wrap\<close> is the closure that \<^verbatim>\<open>TestPhase(timeout_s, run_if)\<close> returns; its first two
  arguments are the captured options. It assigns attributes of the function object it is
  given and returns that same object: the result is the reference and the updated store.
\<close>

definition Wrap :: "pyval \<Rightarrow> pyval \<Rightarrow> heap \<Rightarrow> ref \<Rightarrow> error + (ref \<times> heap)" where
  "Wrap timeout cond h phase_func =
     (if length (args (getargspec (h phase_func))) < 1
      then Inl (InvalidTestPhaseError phase_func)
      else
        let h1 = (if timeout \<noteq> PyNone
                  then h(phase_func := (h phase_func)\<lparr>timeout_s := Some timeout\<rparr>)
                  else h);
            h2 = (if cond \<noteq> PyNone
                  then h1(phase_func := (h1 phase_func)\<lparr>run_if := Some cond\<rparr>)
                  else h1)
        in Inr (phase_func, h2))"

definition TestPhase :: "pyval \<Rightarrow> pyval \<Rightarrow> heap \<Rightarrow> ref \<Rightarrow> error + (ref \<times> heap)" where
  "TestPhase timeout cond = Wrap timeout cond"

subsection \<open>The Test object (lines 133-183)\<close>

text \<open>
  An output callback is code outside this file: it is called with the test record, acts
  on the outside world \<open>'w\<close> and either returns (\<open>None\<close>) or raises (\<open>Some e\<close>).
\<close>

type_synonym 'w callback = "pyval \<Rightarrow> 'w \<Rightarrow> error option \<times> 'w"

record 'w test =
  phases :: "ref list"
  output_callbacks :: "'w callback list"
  filename :: string
  docstring :: "string option"
  code :: string
  test_parameters :: pyval

text \<open>
  What lines 152-155 read from the frame of the caller through \<^verbatim>\<open>inspect\<close> and
  \<^verbatim>\<open>os.path\<close>: the base name of the file, the docstring of the module and the source.
\<close>

record caller_frame =
  frame_basename :: string
  frame_getdoc :: "string option"
  frame_getsource :: string

text \<open>
  The constructor. Two things it uses are not in this file and are parameters: the
  outcome \<open>frame\<close> of the introspection of the caller (it can raise, for instance when
  the source of the caller is not available) and \<open>union_params\<close>, the class method
  \<^verbatim>\<open>parameters.TestParameterList.Union\<close>, called with the \<^verbatim>\<open>parameters\<close> attribute
  of every phase that has one (lines 160-162). The constructor does not read the
  \<^verbatim>\<open>plugs\<close> attribute of any phase.
\<close>

definition Test_init ::
  "error + caller_frame \<Rightarrow> (pyval list \<Rightarrow> error + pyval) \<Rightarrow> heap \<Rightarrow> ref list \<Rightarrow> error + 'w test" where
  "Test_init frame union_params h ps =
     (case frame of
        Inl e \<Rightarrow> Inl e
      | Inr frame_record \<Rightarrow>
          (case union_params (List.map_filter (\<lambda>phase. parameters (h phase)) ps) of
             Inl e \<Rightarrow> Inl e
           | Inr u \<Rightarrow>
               Inr \<lparr>phases = ps, output_callbacks = [],
                    filename = frame_basename frame_record,
                    docstring = frame_getdoc frame_record,
                    code = frame_getsource frame_record,
                    test_parameters = u\<rparr>))"

text \<open>
  The items that the loop of \<^verbatim>\<open>plug_type_map\<close> runs over (lines 168-170):
  \<^verbatim>\<open>itertools.chain.from_iterable(phase.plugs.iteritems() for phase in self.phases
  if hasattr(phase, 'plugs'))\<close>.
\<close>

definition chain_plugs :: "heap \<Rightarrow> ref list \<Rightarrow> (string \<times> plug_type) list" where
  "chain_plugs h ps = concat (List.map_filter (\<lambda>phase. plugs (h phase)) ps)"

text \<open>
  The loop of lines 168-175 over the chained items; \<open>m\<close> is the dict built so far.
\<close>

fun plug_loop ::
  "(string \<times> plug_type) list \<Rightarrow> (string \<rightharpoonup> plug_type) \<Rightarrow> error + (string \<rightharpoonup> plug_type)" where
  "plug_loop [] m = Inr m"
| "plug_loop ((plug, ty) # rest) m =
     (if (case m plug of None \<Rightarrow> False | Some ty' \<Rightarrow> ty \<noteq> ty')
      then Inl (DuplicatePlugError plug)
      else plug_loop rest (m(plug \<mapsto> ty)))"

text \<open>
  The property \<^verbatim>\<open>plug_type_map\<close> (lines 164-176). It is computed from the phases at
  every access; it reads the store and the Test and changes neither.
\<close>

definition plug_type_map :: "heap \<Rightarrow> 'w test \<Rightarrow> error + (string \<rightharpoonup> plug_type)" where
  "plug_type_map h self = plug_loop (chain_plugs h (phases self)) Map.empty"


text \<open>
  \<^verbatim>\<open>OutputTestRecord\<close> (lines 181-183): a plain loop over the callbacks with no
  exception handler, so the first callback that raises ends the loop and its exception
  reaches the caller. The result is the outcome, the outside world after the calls, and,
  for the statements below, the list of the callbacks that were called, in call order.
\<close>

fun run_callbacks ::
  "'w callback list \<Rightarrow> pyval \<Rightarrow> 'w \<Rightarrow> (error + unit) \<times> 'w \<times> 'w callback list" where
  "run_callbacks [] test_record w = (Inr (), w, [])"
| "run_callbacks (output_cb # rest) test_record w =
     (case output_cb test_record w of
        (Some e, w') \<Rightarrow> (Inl e, w', [output_cb])
      | (None, w') \<Rightarrow>
          (case run_callbacks rest test_record w' of
             (res, w'', called) \<Rightarrow> (res, w'', output_cb # called)))"

definition OutputTestRecord ::
  "'w test \<Rightarrow> pyval \<Rightarrow> 'w \<Rightarrow> (error + unit) \<times> 'w \<times> 'w callback list" where
  "OutputTestRecord self test_record w = run_callbacks (output_callbacks self) test_record w"




subsection \<open>Predicates of the statements\<close>

text \<open>The plug requirements of a phase; a phase without the attribute has none.\<close>

definition plugs_of :: "heap \<Rightarrow> ref \<Rightarrow> (string \<times> plug_type) list" where
  "plugs_of h phase = (case plugs (h phase) of None \<Rightarrow> [] | Some d \<Rightarrow> d)"

text \<open>
  Some plug name is required by two phases of the list with two plug types that are not
  the same object.
\<close>

definition plug_conflict :: "heap \<Rightarrow> ref list \<Rightarrow> bool" where
  "plug_conflict h ps =
     (\<exists>p\<in>set ps. \<exists>q\<in>set ps.
        \<exists>(n, t)\<in>set (plugs_of h p). \<exists>(n', u)\<in>set (plugs_of h q). n = n' \<and> t \<noteq> u)"

subsection \<open>Example objects\<close>

text \<open>\<^verbatim>\<open>def phase(test): ...\<close> with no attribute set.\<close>

definition plain_phase :: func_obj where
  "plain_phase =
     \<lparr>getargspec = \<lparr>args = [''test''], varargs = None, varkw = None, defaults = []\<rparr>,
      timeout_s = None, run_if = None, plugs = None, parameters = None\<rparr>"

text \<open>
  A store with three phases that require plugs (objects 0, 1 and 2; the plug types are
  the class objects 10, 20 and 30), the function \<^verbatim>\<open>def phase(test=None): ...\<close>
  (object 4), the function \<^verbatim>\<open>def phase(*rest): ...\<close> (object 5), a phase on which
  \<^verbatim>\<open>timeout_s = 3\<close> and \<^verbatim>\<open>run_if = None\<close> were assigned by hand (object 6), and plain
  phases everywhere else.
\<close>

definition example_heap :: heap where
  "example_heap r =
     (if r = 0 then plain_phase\<lparr>plugs := Some [(''a'', 10), (''b'', 10)]\<rparr>
      else if r = 1 then plain_phase\<lparr>plugs := Some [(''b'', 20), (''a'', 20)]\<rparr>
      else if r = 2 then plain_phase\<lparr>plugs := Some [(''a'', 10), (''c'', 30)]\<rparr>
      else if r = 4 then plain_phase\<lparr>getargspec :=
          \<lparr>args = [''test''], varargs = None, varkw = None, defaults = [PyNone]\<rparr>\<rparr>
      else if r = 5 then plain_phase\<lparr>getargspec :=
          \<lparr>args = [], varargs = Some ''rest'', varkw = None, defaults = []\<rparr>\<rparr>
      else if r = 6 then plain_phase\<lparr>timeout_s := Some (PyNum 3), run_if := Some PyNone\<rparr>
      else plain_phase)"

text \<open>The store after \<^verbatim>\<open>TestPhase(timeout_s=n)\<close> was applied to object 0.\<close>

definition decorated_heap :: "int \<Rightarrow> heap" where
  "decorated_heap n = example_heap(0 := (example_heap 0)\<lparr>timeout_s := Some (PyNum n)\<rparr>)"

definition example_test :: "ref list \<Rightarrow> (string list) test" where
  "example_test ps =
     \<lparr>phases = ps, output_callbacks = [], filename = ''station.py'',
      docstring = None, code = [], test_parameters = PyObj 0\<rparr>"

text \<open>
  Output callbacks acting on a log of names: one appends its name and returns, the other
  raises without touching the log.
\<close>

definition cb_log :: "string \<Rightarrow> (string list) callback" where
  "cb_log name test_record w = (None, w @ [name])"

definition cb_fail :: "string \<Rightarrow> (string list) callback" where
  "cb_fail name test_record w = (Some (OtherError name), w)"

definition example_callbacks :: "(string list) callback list" where
  "example_callbacks = [cb_log ''first'', cb_fail ''boom'', cb_log ''third'']"

text \<open>A caller whose introspection succeeds, and a union of parameters that returns.\<close>

definition example_frame :: caller_frame where
  "example_frame =
     \<lparr>frame_basename = ''station.py'', frame_getdoc = None, frame_getsource = []\<rparr>"

definition example_union :: "pyval list \<Rightarrow> error + pyval" where
  "example_union parameter_lists = Inr (PyObj 0)"

section \<open>The plug type map\<close>

subsection \<open>The loop\<close>

lemma set_chain_plugs_of:
  "set (chain_plugs h ps) = (\<Union>p\<in>set ps. set (plugs_of h p))"
  by (induction ps) (auto simp: chain_plugs_def plugs_of_def split: option.splits)

lemma plug_conflict_chain:
  "plug_conflict h ps \<longleftrightarrow>
     (\<exists>n t u. (n, t) \<in> set (chain_plugs h ps) \<and> (n, u) \<in> set (chain_plugs h ps) \<and> t \<noteq> u)"
  unfolding plug_conflict_def set_chain_plugs_of by fastforce

text \<open>
  The only exception of the loop is \<^verbatim>\<open>DuplicatePlugError\<close>, it names a plug of the
  items, and that plug has a second type in the dict or in the items.
\<close>

lemma plug_loop_Inl:
  "plug_loop xs m = Inl e \<Longrightarrow>
     \<exists>n t u. e = DuplicatePlugError n \<and> (n, t) \<in> set xs \<and> t \<noteq> u \<and>
             (m n = Some u \<or> (n, u) \<in> set xs)"
proof (induction xs arbitrary: m)
  case Nil
  then show ?case by simp
next
  case (Cons x xs)
  obtain plug ty where x: "x = (plug, ty)" by (cases x)
  show ?case
  proof (cases "case m plug of None \<Rightarrow> False | Some ty' \<Rightarrow> ty \<noteq> ty'")
    case True
    with Cons.prems x show ?thesis by (auto split: option.splits)
  next
    case False
    with Cons.prems x have "plug_loop xs (m(plug \<mapsto> ty)) = Inl e" by simp
    from Cons.IH[OF this] obtain n t u where
      h: "e = DuplicatePlugError n" "(n, t) \<in> set xs" "t \<noteq> u"
         "(m(plug \<mapsto> ty)) n = Some u \<or> (n, u) \<in> set xs" by blast
    show ?thesis using h x by (auto split: if_splits)
  qed
qed

text \<open>When the loop returns, the dict holds what it held before and every item.\<close>

lemma plug_loop_Inr_lookup:
  "plug_loop xs m = Inr m' \<Longrightarrow> m' n = Some t \<longleftrightarrow> m n = Some t \<or> (n, t) \<in> set xs"
proof (induction xs arbitrary: m)
  case Nil
  then show ?case by simp
next
  case (Cons x xs)
  obtain plug ty where x: "x = (plug, ty)" by (cases x)
  from Cons.prems x have ok: "\<not> (case m plug of None \<Rightarrow> False | Some ty' \<Rightarrow> ty \<noteq> ty')"
    and rest: "plug_loop xs (m(plug \<mapsto> ty)) = Inr m'"
    by (auto split: if_splits)
  from Cons.IH[OF rest]
  have "m' n = Some t \<longleftrightarrow> (m(plug \<mapsto> ty)) n = Some t \<or> (n, t) \<in> set xs" .
  then show ?case using ok x by (auto split: option.splits if_splits)
qed

lemma plug_loop_Inr_consistent:
  "plug_loop xs m = Inr m' \<Longrightarrow> (n, t) \<in> set xs \<Longrightarrow> m n = Some u \<or> (n, u) \<in> set xs \<Longrightarrow> t = u"
  using plug_loop_Inr_lookup[of xs m m' n] by (metis option.inject)

lemma plug_loop_cases:
  "(\<exists>m'. plug_loop xs m = Inr m') \<or> (\<exists>plug. plug_loop xs m = Inl (DuplicatePlugError plug))"
proof (cases "plug_loop xs m")
  case (Inl e)
  then show ?thesis using plug_loop_Inl[OF Inl] by auto
next
  case (Inr m')
  then show ?thesis by simp
qed

lemma plug_loop_conflict_Inl:
  assumes "(n, t) \<in> set xs" "(n, u) \<in> set xs" "t \<noteq> u"
  shows "\<exists>plug. plug_loop xs m = Inl (DuplicatePlugError plug)"
proof (rule ccontr)
  assume "\<not> ?thesis"
  with plug_loop_cases[of xs m] obtain m' where ok: "plug_loop xs m = Inr m'" by blast
  from plug_loop_Inr_consistent[OF ok assms(1)] assms(2) have "t = u" by blast
  with assms(3) show False by simp
qed

subsection \<open>The property\<close>

lemma plug_type_map_Inl_iff:
  "(\<exists>plug. plug_type_map h self = Inl (DuplicatePlugError plug)) \<longleftrightarrow>
     plug_conflict h (phases self)"
proof
  assume "\<exists>plug. plug_type_map h self = Inl (DuplicatePlugError plug)"
  then obtain plug where
    "plug_loop (chain_plugs h (phases self)) Map.empty = Inl (DuplicatePlugError plug)"
    by (auto simp: plug_type_map_def)
  from plug_loop_Inl[OF this] show "plug_conflict h (phases self)"
    unfolding plug_conflict_chain by auto
next
  assume "plug_conflict h (phases self)"
  then obtain n t u where "(n, t) \<in> set (chain_plugs h (phases self))"
    "(n, u) \<in> set (chain_plugs h (phases self))" "t \<noteq> u"
    unfolding plug_conflict_chain by blast
  from plug_loop_conflict_Inl[OF this]
  show "\<exists>plug. plug_type_map h self = Inl (DuplicatePlugError plug)"
    by (simp add: plug_type_map_def)
qed

lemma plug_type_map_Inr_iff:
  "(\<exists>m. plug_type_map h self = Inr m) \<longleftrightarrow> \<not> plug_conflict h (phases self)"
  using plug_type_map_Inl_iff[of h self]
    plug_loop_cases[of "chain_plugs h (phases self)" Map.empty]
  by (auto simp: plug_type_map_def)

text \<open>
  Claim C1. Whenever some plug name is required by two phases of the Test with two plug
  types that are not the same object, the access to \<^verbatim>\<open>plug_type_map\<close> raises
  \<^verbatim>\<open>DuplicatePlugError\<close>; whenever every name resolves to one and the same type object
  in all phases, the access raises nothing and returns a dict.
\<close>

theorem plug_type_map_duplicate_plug_error:
  "(plug_conflict h (phases self) \<longrightarrow>
      (\<exists>plug. plug_type_map h self = Inl (DuplicatePlugError plug))) \<and>
   (\<not> plug_conflict h (phases self) \<longrightarrow> (\<exists>m. plug_type_map h self = Inr m))"
  using plug_type_map_Inl_iff[of h self] plug_type_map_Inr_iff[of h self] by blast

theorem plug_type_map_duplicate_plug_error_witness:
  "plug_conflict example_heap (phases (example_test [0, 1])) \<and>
   plug_type_map example_heap (example_test [0, 1]) = Inl (DuplicatePlugError ''b'') \<and>
   \<not> plug_conflict example_heap (phases (example_test [0, 2, 3])) \<and>
   (\<exists>m. plug_type_map example_heap (example_test [0, 2, 3]) = Inr m)"
proof -
  have p: "phases (example_test [0, 1]) = [0, 1]"
    "phases (example_test [0, 2, 3]) = [0, 2, 3]"
    by (simp_all add: example_test_def)
  have c: "plug_conflict example_heap [0, 1]" by code_simp
  have n: "\<not> plug_conflict example_heap [0, 2, 3]" by code_simp
  have e: "plug_type_map example_heap (example_test [0, 1]) = Inl (DuplicatePlugError ''b'')"
    by (simp add: example_heap_def plain_phase_def example_test_def plug_type_map_def
        chain_plugs_def)
  show ?thesis
    using plug_type_map_duplicate_plug_error[of example_heap "example_test [0, 1]"]
      plug_type_map_duplicate_plug_error[of example_heap "example_test [0, 2, 3]"] c n e
    unfolding p by blast
qed

text \<open>
  Phases without the attribute \<^verbatim>\<open>plugs\<close> are filtered out before the loop, and the
  conflict of a list is a matter of which phases are in it, not of where they are.
\<close>

lemma chain_plugs_filter:
  "chain_plugs h (filter (\<lambda>p. plugs (h p) \<noteq> None) ps) = chain_plugs h ps"
  by (induction ps) (auto simp: chain_plugs_def)

lemma plug_conflict_set:
  "set ps = set qs \<Longrightarrow> plug_conflict h ps = plug_conflict h qs"
  by (simp add: plug_conflict_def)

text \<open>
  Claim C2. When the plug requirements of the phases are pairwise consistent (no name is
  required with two distinct types), the access to \<^verbatim>\<open>plug_type_map\<close> returns a dict,
  and the dict is exactly the union of the \<^verbatim>\<open>plugs\<close> dicts of the phases: it maps a
  name to a type if and only if some phase requires that name with that type. Phases
  without the attribute contribute nothing: leaving them out gives the same dict.
\<close>

theorem plug_type_map_exact_union:
  assumes "\<not> plug_conflict h (phases self)"
  shows "\<exists>m. plug_type_map h self = Inr m \<and>
           (\<forall>n t. m n = Some t \<longleftrightarrow> (\<exists>p\<in>set (phases self). (n, t) \<in> set (plugs_of h p))) \<and>
           plug_type_map h
             (self\<lparr>phases := filter (\<lambda>p. plugs (h p) \<noteq> None) (phases self)\<rparr>) = Inr m"
proof -
  from assms obtain m where m: "plug_type_map h self = Inr m"
    using plug_type_map_Inr_iff[of h self] by blast
  then have loop: "plug_loop (chain_plugs h (phases self)) Map.empty = Inr m"
    by (simp add: plug_type_map_def)
  have "m n = Some t \<longleftrightarrow> (\<exists>p\<in>set (phases self). (n, t) \<in> set (plugs_of h p))" for n t
    using plug_loop_Inr_lookup[OF loop, of n t] by (simp add: set_chain_plugs_of)
  moreover have "plug_type_map h
      (self\<lparr>phases := filter (\<lambda>p. plugs (h p) \<noteq> None) (phases self)\<rparr>) = Inr m"
    using loop by (simp add: plug_type_map_def chain_plugs_filter del: not_None_eq)
  ultimately show ?thesis using m by blast
qed

theorem plug_type_map_exact_union_witness:
  "\<not> plug_conflict example_heap (phases (example_test [0, 2, 3])) \<and>
   plug_type_map example_heap (example_test [0, 2, 3]) =
     Inr [''a'' \<mapsto> 10, ''b'' \<mapsto> 10, ''c'' \<mapsto> 30] \<and>
   plug_type_map example_heap (example_test [0, 2]) =
     Inr [''a'' \<mapsto> 10, ''b'' \<mapsto> 10, ''c'' \<mapsto> 30] \<and>
   (\<exists>m. plug_type_map example_heap (example_test [0, 2, 3]) = Inr m \<and>
      (\<forall>n t. m n = Some t \<longleftrightarrow>
         (\<exists>p\<in>set (phases (example_test [0, 2, 3])). (n, t) \<in> set (plugs_of example_heap p))))"
proof -
  have p: "phases (example_test [0, 2, 3]) = [0, 2, 3]"
    by (simp add: example_test_def)
  have n: "\<not> plug_conflict example_heap [0, 2, 3]" by code_simp
  have e: "plug_type_map example_heap (example_test [0, 2, 3]) =
      Inr [''a'' \<mapsto> 10, ''b'' \<mapsto> 10, ''c'' \<mapsto> 30]"
    by (simp add: example_heap_def plain_phase_def example_test_def plug_type_map_def
        chain_plugs_def fun_eq_iff)
  have f: "plug_type_map example_heap (example_test [0, 2]) =
      Inr [''a'' \<mapsto> 10, ''b'' \<mapsto> 10, ''c'' \<mapsto> 30]"
    by (simp add: example_heap_def plain_phase_def example_test_def plug_type_map_def
        chain_plugs_def fun_eq_iff)
  show ?thesis
    using plug_type_map_exact_union[of example_heap "example_test [0, 2, 3]"] n e f
    unfolding p by blast
qed

text \<open>
  Claim C8. The duplicate-plug check does not depend on the order of the phases: for a
  Test whose phases are a permutation of the phases of another, the access to
  \<^verbatim>\<open>plug_type_map\<close> raises \<^verbatim>\<open>DuplicatePlugError\<close> for the one if and only if it does
  for the other. (The plug named in the message is the first conflict met, which can
  differ between two orders, as the witness shows.)
\<close>

theorem plug_type_map_order_independent:
  assumes "mset (phases self') = mset (phases self)"
  shows "(\<exists>plug. plug_type_map h self' = Inl (DuplicatePlugError plug)) \<longleftrightarrow>
         (\<exists>plug. plug_type_map h self = Inl (DuplicatePlugError plug))"
proof -
  from assms have "set (phases self') = set (phases self)" by (rule mset_eq_setD)
  then have "plug_conflict h (phases self') = plug_conflict h (phases self)"
    by (rule plug_conflict_set)
  then show ?thesis by (simp add: plug_type_map_Inl_iff)
qed

theorem plug_type_map_order_independent_witness:
  "mset (phases (example_test [1, 0])) = mset (phases (example_test [0, 1])) \<and>
   plug_type_map example_heap (example_test [0, 1]) = Inl (DuplicatePlugError ''b'') \<and>
   plug_type_map example_heap (example_test [1, 0]) = Inl (DuplicatePlugError ''a'') \<and>
   ((\<exists>plug. plug_type_map example_heap (example_test [1, 0]) = Inl (DuplicatePlugError plug))
      \<longleftrightarrow>
    (\<exists>plug. plug_type_map example_heap (example_test [0, 1]) = Inl (DuplicatePlugError plug)))"
proof -
  have p: "mset (phases (example_test [1, 0])) = mset (phases (example_test [0, 1]))"
    by (simp add: example_test_def)
  have e: "plug_type_map example_heap (example_test [0, 1]) = Inl (DuplicatePlugError ''b'')"
    by (simp add: example_heap_def plain_phase_def example_test_def plug_type_map_def
        chain_plugs_def)
  have f: "plug_type_map example_heap (example_test [1, 0]) = Inl (DuplicatePlugError ''a'')"
    by (simp add: example_heap_def plain_phase_def example_test_def plug_type_map_def
        chain_plugs_def)
  show ?thesis
    using plug_type_map_order_independent[OF p, of example_heap] p e f by blast
qed

text \<open>
  The keys of a dict are pairwise different, so a conflict always lies between two
  different phase objects.
\<close>

lemma plug_conflict_two_phases:
  assumes "\<forall>p\<in>set ps. wf_phase (h p)" and "plug_conflict h ps"
  shows "\<exists>p\<in>set ps. \<exists>q\<in>set ps. p \<noteq> q \<and>
           (\<exists>n t u. (n, t) \<in> set (plugs_of h p) \<and> (n, u) \<in> set (plugs_of h q) \<and> t \<noteq> u)"
proof -
  from assms(2) obtain p q n t u where
    c: "p \<in> set ps" "q \<in> set ps" "(n, t) \<in> set (plugs_of h p)"
       "(n, u) \<in> set (plugs_of h q)" "t \<noteq> u"
    unfolding plug_conflict_def by blast
  have "p \<noteq> q"
  proof
    assume "p = q"
    from assms(1) c(1) have "distinct (map fst (plugs_of h p))"
      by (auto simp: wf_phase_def wf_dict_def plugs_of_def split: option.splits)
    with c(3,4) \<open>p = q\<close> have "t = u" by (auto dest: eq_key_imp_eq_value)
    with c(5) show False by simp
  qed
  with c show ?thesis by blast
qed

section \<open>The decorator\<close>

lemma Wrap_invalid:
  "args (getargspec (h f)) = [] \<Longrightarrow> Wrap tmo c h f = Inl (InvalidTestPhaseError f)"
  by (simp add: Wrap_def)

lemma Wrap_valid:
  "args (getargspec (h f)) \<noteq> [] \<Longrightarrow>
   Wrap tmo c h f =
     Inr (f, h(f := (h f)\<lparr>timeout_s := (if tmo \<noteq> PyNone then Some tmo else timeout_s (h f)),
                           run_if := (if c \<noteq> PyNone then Some c else run_if (h f))\<rparr>))"
  by (auto simp: Wrap_def Let_def)

lemma chain_plugs_cong:
  "(\<And>p. p \<in> set ps \<Longrightarrow> plugs (h' p) = plugs (h p)) \<Longrightarrow> chain_plugs h' ps = chain_plugs h ps"
  by (induction ps) (auto simp: chain_plugs_def split: option.splits)

text \<open>
  Claim C3, as the code has it. The decorator looks at the number of named positional
  parameters of the function, with or without a default (the \<^verbatim>\<open>args\<close> of its argspec):
  when there is none it raises \<^verbatim>\<open>InvalidTestPhaseError\<close>, when there is at least one
  the decoration succeeds and returns the function. So every function that requires at
  least one positional argument is accepted, and so is a function whose only parameters
  have defaults.
\<close>

theorem TestPhase_arity_check:
  "(args (getargspec (h f)) = [] \<longrightarrow> TestPhase tmo c h f = Inl (InvalidTestPhaseError f)) \<and>
   (args (getargspec (h f)) \<noteq> [] \<longrightarrow> (\<exists>h'. TestPhase tmo c h f = Inr (f, h'))) \<and>
   (0 < min_required (h f) \<longrightarrow> (\<exists>h'. TestPhase tmo c h f = Inr (f, h')))"
proof -
  have "0 < min_required (h f) \<Longrightarrow> args (getargspec (h f)) \<noteq> []"
    by (auto simp: min_required_def)
  then show ?thesis
    by (auto simp: TestPhase_def Wrap_invalid Wrap_valid)
qed

theorem TestPhase_arity_check_witness:
  "args (getargspec (example_heap 5)) = [] \<and>
   TestPhase PyNone PyNone example_heap 5 = Inl (InvalidTestPhaseError 5) \<and>
   args (getargspec (example_heap 4)) \<noteq> [] \<and>
   (\<exists>h'. TestPhase PyNone PyNone example_heap 4 = Inr (4, h')) \<and>
   0 < min_required (example_heap 0) \<and>
   (\<exists>h'. TestPhase (PyNum 5) PyNone example_heap 0 = Inr (0, h'))"
proof -
  have a: "args (getargspec (example_heap 5)) = []"
    "args (getargspec (example_heap 4)) \<noteq> []"
    "0 < min_required (example_heap 0)"
    by (simp_all add: example_heap_def plain_phase_def min_required_def)
  show ?thesis
    using TestPhase_arity_check[of example_heap 5 PyNone PyNone]
      TestPhase_arity_check[of example_heap 4 PyNone PyNone]
      TestPhase_arity_check[of example_heap 0 "PyNum 5" PyNone] a by blast
qed

text \<open>
  The claim as the specification words it fails: \<^verbatim>\<open>def phase(test=None)\<close> can be called
  with no argument, its minimum required parameter count is zero, and the decorator
  accepts it.
\<close>

theorem TestPhase_zero_required_counterexample:
  "wf_phase (example_heap 4) \<and> min_required (example_heap 4) = 0 \<and>
   TestPhase PyNone PyNone example_heap 4 = Inr (4, example_heap)"
  by (simp add: wf_phase_def min_required_def example_heap_def plain_phase_def
      TestPhase_def Wrap_def)

text \<open>
  Claim C9. With \<^verbatim>\<open>timeout_s=None\<close> and \<^verbatim>\<open>run_if=None\<close> the decorator returns the
  function and leaves the whole store as it was: no attribute is attached, and an
  attribute \<^verbatim>\<open>timeout_s\<close> or \<^verbatim>\<open>run_if\<close> that the function already had keeps its
  value. The same holds for each option alone: the option that is \<^verbatim>\<open>None\<close> leaves its
  attribute as it was, whatever the other option is.
\<close>

theorem TestPhase_None_options:
  assumes "args (getargspec (h f)) \<noteq> []"
  shows "TestPhase PyNone PyNone h f = Inr (f, h) \<and>
         (\<exists>h'. TestPhase PyNone c h f = Inr (f, h') \<and> timeout_s (h' f) = timeout_s (h f)) \<and>
         (\<exists>h'. TestPhase tmo PyNone h f = Inr (f, h') \<and> run_if (h' f) = run_if (h f))"
  using assms by (simp add: TestPhase_def Wrap_valid)

theorem TestPhase_None_options_witness:
  "args (getargspec (example_heap 3)) \<noteq> [] \<and>
   TestPhase PyNone PyNone example_heap 3 = Inr (3, example_heap) \<and>
   timeout_s (example_heap 3) = None \<and> run_if (example_heap 3) = None \<and>
   args (getargspec (example_heap 6)) \<noteq> [] \<and>
   TestPhase PyNone PyNone example_heap 6 = Inr (6, example_heap) \<and>
   timeout_s (example_heap 6) = Some (PyNum 3) \<and> run_if (example_heap 6) = Some PyNone"
proof -
  have a: "args (getargspec (example_heap 3)) \<noteq> []"
    "args (getargspec (example_heap 6)) \<noteq> []"
    "timeout_s (example_heap 3) = None" "run_if (example_heap 3) = None"
    "timeout_s (example_heap 6) = Some (PyNum 3)" "run_if (example_heap 6) = Some PyNone"
    by (simp_all add: example_heap_def plain_phase_def)
  show ?thesis
    using TestPhase_None_options[of example_heap 3 PyNone PyNone]
      TestPhase_None_options[of example_heap 6 PyNone PyNone] a by blast
qed

text \<open>
  Claim C7, as the code has it. For a function with at least one named positional
  parameter the decorator returns the very object it was given; no other object of the
  store changes; the argspec, the \<^verbatim>\<open>plugs\<close> and the \<^verbatim>\<open>parameters\<close> of the function are
  as before, so that the plug type map of every Test is the same after the decoration;
  an option that is not \<^verbatim>\<open>None\<close> is stored in the attribute of its name. The object
  stays mutable: a later decoration with another timeout succeeds and overwrites
  \<^verbatim>\<open>timeout_s\<close>.
\<close>

theorem TestPhase_same_object:
  assumes "args (getargspec (h f)) \<noteq> []"
  shows "\<exists>h'. TestPhase tmo c h f = Inr (f, h') \<and>
           (\<forall>g. g \<noteq> f \<longrightarrow> h' g = h g) \<and>
           getargspec (h' f) = getargspec (h f) \<and>
           plugs (h' f) = plugs (h f) \<and>
           parameters (h' f) = parameters (h f) \<and>
           (tmo \<noteq> PyNone \<longrightarrow> timeout_s (h' f) = Some tmo) \<and>
           (c \<noteq> PyNone \<longrightarrow> run_if (h' f) = Some c) \<and>
           (\<forall>self::'w test. plug_type_map h' self = plug_type_map h self) \<and>
           (\<forall>tmo2. tmo2 \<noteq> PyNone \<longrightarrow>
              (\<exists>h''. TestPhase tmo2 PyNone h' f = Inr (f, h'') \<and>
                     timeout_s (h'' f) = Some tmo2))"
proof -
  define h' where
    "h' = h(f := (h f)\<lparr>timeout_s := (if tmo \<noteq> PyNone then Some tmo else timeout_s (h f)),
                        run_if := (if c \<noteq> PyNone then Some c else run_if (h f))\<rparr>)"
  have r: "TestPhase tmo c h f = Inr (f, h')"
    using assms by (simp add: TestPhase_def Wrap_valid h'_def)
  have pl: "plugs (h' p) = plugs (h p)" for p by (simp add: h'_def)
  have ptm: "plug_type_map h' self = plug_type_map h self" for self :: "'w test"
    by (simp add: plug_type_map_def chain_plugs_cong[of _ h' h] pl)
  have valid': "args (getargspec (h' f)) \<noteq> []" using assms by (simp add: h'_def)
  have again: "\<exists>h''. TestPhase tmo2 PyNone h' f = Inr (f, h'') \<and> timeout_s (h'' f) = Some tmo2"
    if "tmo2 \<noteq> PyNone" for tmo2
    using that valid' by (simp add: TestPhase_def Wrap_valid)
  have "(\<forall>g. g \<noteq> f \<longrightarrow> h' g = h g)" "getargspec (h' f) = getargspec (h f)"
    "parameters (h' f) = parameters (h f)" "tmo \<noteq> PyNone \<longrightarrow> timeout_s (h' f) = Some tmo"
    "c \<noteq> PyNone \<longrightarrow> run_if (h' f) = Some c"
    by (simp_all add: h'_def)
  with r pl ptm again show ?thesis by blast
qed

theorem TestPhase_same_object_witness:
  "args (getargspec (example_heap 0)) \<noteq> [] \<and>
   TestPhase (PyNum 5) (PyObj 7) example_heap 0 =
     Inr (0, example_heap(0 := (example_heap 0)\<lparr>timeout_s := Some (PyNum 5),
                                                  run_if := Some (PyObj 7)\<rparr>)) \<and>
   (\<exists>h'. TestPhase (PyNum 5) (PyObj 7) example_heap 0 = Inr (0, h') \<and>
      plugs (h' 0) = plugs (example_heap 0) \<and>
      timeout_s (h' 0) = Some (PyNum 5) \<and> run_if (h' 0) = Some (PyObj 7))"
proof -
  have a: "args (getargspec (example_heap 0)) \<noteq> []"
    by (simp add: example_heap_def plain_phase_def)
  have e: "TestPhase (PyNum 5) (PyObj 7) example_heap 0 =
     Inr (0, example_heap(0 := (example_heap 0)\<lparr>timeout_s := Some (PyNum 5),
                                                  run_if := Some (PyObj 7)\<rparr>))"
    by (simp add: TestPhase_def Wrap_def example_heap_def plain_phase_def)
  have n: "PyNum 5 \<noteq> PyNone" "PyObj 7 \<noteq> PyNone" by simp_all
  show ?thesis
    using TestPhase_same_object[of example_heap 0 "PyNum 5" "PyObj 7"] a e n by auto
qed

text \<open>
  The claim as the specification words it fails where it says that the descriptor cannot
  be mutated after construction: the function decorated with a timeout of 5 seconds is
  decorated again with 10, and the same object now carries 10.
\<close>

theorem TestPhase_mutable_counterexample:
  "TestPhase (PyNum 5) PyNone example_heap 0 = Inr (0, decorated_heap 5) \<and>
   timeout_s (decorated_heap 5 0) = Some (PyNum 5) \<and>
   TestPhase (PyNum 10) PyNone (decorated_heap 5) 0 = Inr (0, decorated_heap 10) \<and>
   timeout_s (decorated_heap 10 0) = Some (PyNum 10) \<and>
   timeout_s (decorated_heap 10 0) \<noteq> timeout_s (decorated_heap 5 0)"
  by (simp add: TestPhase_def Wrap_def decorated_heap_def example_heap_def plain_phase_def)

section \<open>The Test object\<close>

subsection \<open>Output callbacks\<close>

lemma run_callbacks_prefix:
  "run_callbacks cbs r w = (res, w', called) \<Longrightarrow> prefix called cbs"
proof (induction cbs arbitrary: w res w' called)
  case Nil
  then show ?case by simp
next
  case (Cons cb cbs)
  then show ?case
    by (auto split: prod.splits option.splits)
qed

lemma run_callbacks_Inr:
  "run_callbacks cbs r w = (Inr u, w', called) \<Longrightarrow> called = cbs"
proof (induction cbs arbitrary: w w' called)
  case Nil
  then show ?case by simp
next
  case (Cons cb cbs)
  then show ?case
    by (auto split: prod.splits option.splits)
qed

text \<open>
  When the loop ends with an exception, some callback at a position \<open>k\<close> raised it after
  the callbacks before it had all returned, and the callbacks called are the first
  \<open>k + 1\<close>.
\<close>

lemma run_callbacks_Inl:
  "run_callbacks cbs r w = (Inl e, w', called) \<Longrightarrow>
     \<exists>k<length cbs. \<exists>wk. run_callbacks (take k cbs) r w = (Inr (), wk, take k cbs) \<and>
        (cbs ! k) r wk = (Some e, w') \<and> called = take (Suc k) cbs"
proof (induction cbs arbitrary: w w' called)
  case Nil
  then show ?case by simp
next
  case (Cons cb cbs)
  obtain oe w1 where c: "cb r w = (oe, w1)" by (cases "cb r w")
  show ?case
  proof (cases oe)
    case (Some e')
    with Cons.prems c have "e' = e" "w' = w1" "called = [cb]" by simp_all
    with c Some have "run_callbacks (take 0 (cb # cbs)) r w = (Inr (), w, take 0 (cb # cbs)) \<and>
        ((cb # cbs) ! 0) r w = (Some e, w') \<and> called = take (Suc 0) (cb # cbs)" by simp
    then show ?thesis by blast
  next
    case None
    obtain res w2 called2 where rr: "run_callbacks cbs r w1 = (res, w2, called2)"
      by (cases "run_callbacks cbs r w1")
    with Cons.prems c None have eq: "res = Inl e" "w2 = w'" "called = cb # called2"
      by simp_all
    from Cons.IH[of w1 w' called2] rr eq obtain k wk where
      k: "k < length cbs" "run_callbacks (take k cbs) r w1 = (Inr (), wk, take k cbs)"
         "(cbs ! k) r wk = (Some e, w')" "called2 = take (Suc k) cbs" by blast
    have "Suc k < length (cb # cbs) \<and>
        run_callbacks (take (Suc k) (cb # cbs)) r w = (Inr (), wk, take (Suc k) (cb # cbs)) \<and>
        ((cb # cbs) ! Suc k) r wk = (Some e, w') \<and> called = take (Suc (Suc k)) (cb # cbs)"
      using k c None eq by simp
    then show ?thesis by blast
  qed
qed

lemma run_callbacks_append:
  "run_callbacks (xs @ ys) r w =
     (case run_callbacks xs r w of
        (Inl e, w', called) \<Rightarrow> (Inl e, w', called)
      | (Inr u, w', called) \<Rightarrow>
          (case run_callbacks ys r w' of (res, w'', called') \<Rightarrow> (res, w'', called @ called')))"
  by (induction xs arbitrary: w) (auto split: prod.splits option.splits sum.splits)


text \<open>
  The world in which the callback at position \<open>k\<close> is called is the world that the
  callbacks before it leave behind, one after the other:
  \<open>foldl (\<lambda>v cb. snd (cb r v)) w (take k cbs)\<close>. When every callback returns in its
  world, the loop calls them all and returns; when the callback at \<open>k\<close> is the first
  that raises in its world, the loop ends there with its exception.
\<close>

lemma run_callbacks_all_return:
  "(\<forall>k<length cbs.
      fst ((cbs ! k) r (foldl (\<lambda>v cb. snd (cb r v)) w (take k cbs))) = None) \<Longrightarrow>
   run_callbacks cbs r w = (Inr (), foldl (\<lambda>v cb. snd (cb r v)) w cbs, cbs)"
proof (induction cbs arbitrary: w)
  case Nil
  then show ?case by simp
next
  case (Cons cb cbs)
  from Cons.prems[rule_format, of 0] have h: "fst (cb r w) = None" by simp
  have "\<forall>k<length cbs.
      fst ((cbs ! k) r (foldl (\<lambda>v cb. snd (cb r v)) (snd (cb r w)) (take k cbs))) = None"
  proof (intro allI impI)
    fix k assume "k < length cbs"
    with Cons.prems[rule_format, of "Suc k"] show
      "fst ((cbs ! k) r (foldl (\<lambda>v cb. snd (cb r v)) (snd (cb r w)) (take k cbs))) = None"
      by simp
  qed
  from Cons.IH[OF this] h show ?case
    by (cases "cb r w") simp
qed

lemma run_callbacks_first_raise:
  assumes "k < length cbs"
    and "\<forall>j<k. fst ((cbs ! j) r (foldl (\<lambda>v cb. snd (cb r v)) w (take j cbs))) = None"
    and "(cbs ! k) r (foldl (\<lambda>v cb. snd (cb r v)) w (take k cbs)) = (Some e, w')"
  shows "run_callbacks cbs r w = (Inl e, w', take (Suc k) cbs)"
proof -
  let ?step = "\<lambda>v cb. snd (cb r v)"
  have "\<forall>j<length (take k cbs).
      fst ((take k cbs ! j) r (foldl ?step w (take j (take k cbs)))) = None"
    using assms(1,2) by (simp add: min_def)
  from run_callbacks_all_return[OF this]
  have pre: "run_callbacks (take k cbs) r w = (Inr (), foldl ?step w (take k cbs), take k cbs)" .
  have split: "cbs = take k cbs @ (cbs ! k) # drop (Suc k) cbs"
    using assms(1) by (simp add: id_take_nth_drop)
  have "run_callbacks (take k cbs @ (cbs ! k) # drop (Suc k) cbs) r w =
      (Inl e, w', take k cbs @ [cbs ! k])"
    by (simp add: run_callbacks_append pre assms(3))
  moreover have "take k cbs @ [cbs ! k] = take (Suc k) cbs"
    using assms(1) by (simp add: take_Suc_conv_app_nth)
  ultimately show ?thesis using split by simp
qed

text \<open>
  Claim C5, as the code has it, for callbacks that act on the outside world only (they
  do not change the list of callbacks while the loop runs over it).
  \<^verbatim>\<open>OutputTestRecord\<close> calls the callbacks in registration order, each at most once,
  and stops at the first one that raises: the callbacks called are always a prefix of
  the registered list. When no callback raises, every callback is called exactly once,
  in registration order, each in the world left by the ones before it, and
  \<^verbatim>\<open>OutputTestRecord\<close> returns. When the callback at position \<open>k\<close> is the first that
  raises, its exception is the outcome of \<^verbatim>\<open>OutputTestRecord\<close>, that is, it reaches
  the caller; the callbacks called are exactly the first \<open>k + 1\<close>, so no callback
  registered after it is called, and the world is as the raising callback left it.
\<close>

theorem OutputTestRecord_stops_at_first_raise:
  "(\<exists>res w' called. OutputTestRecord self r w = (res, w', called) \<and>
     prefix called (output_callbacks self) \<and>
     (res = Inr () \<longrightarrow> called = output_callbacks self) \<and>
     (\<forall>e. res = Inl e \<longrightarrow>
        (\<exists>k<length (output_callbacks self). \<exists>wk.
           run_callbacks (take k (output_callbacks self)) r w =
             (Inr (), wk, take k (output_callbacks self)) \<and>
           (output_callbacks self ! k) r wk = (Some e, w') \<and>
           called = take (Suc k) (output_callbacks self)))) \<and>
   ((\<forall>k<length (output_callbacks self).
        fst ((output_callbacks self ! k) r
          (foldl (\<lambda>v cb. snd (cb r v)) w (take k (output_callbacks self)))) = None) \<longrightarrow>
      OutputTestRecord self r w =
        (Inr (), foldl (\<lambda>v cb. snd (cb r v)) w (output_callbacks self), output_callbacks self)) \<and>
   (\<forall>k e w'. k < length (output_callbacks self) \<and>
        (\<forall>j<k. fst ((output_callbacks self ! j) r
          (foldl (\<lambda>v cb. snd (cb r v)) w (take j (output_callbacks self)))) = None) \<and>
        (output_callbacks self ! k) r
          (foldl (\<lambda>v cb. snd (cb r v)) w (take k (output_callbacks self))) = (Some e, w') \<longrightarrow>
      OutputTestRecord self r w = (Inl e, w', take (Suc k) (output_callbacks self)))"
proof -
  obtain res w' called where
    o: "run_callbacks (output_callbacks self) r w = (res, w', called)"
    by (cases "run_callbacks (output_callbacks self) r w")
  have "prefix called (output_callbacks self)" using run_callbacks_prefix[OF o] .
  moreover have "res = Inr () \<longrightarrow> called = output_callbacks self"
    using run_callbacks_Inr[of "output_callbacks self" r w "()" w' called] o by simp
  moreover have "\<forall>e. res = Inl e \<longrightarrow>
        (\<exists>k<length (output_callbacks self). \<exists>wk.
           run_callbacks (take k (output_callbacks self)) r w =
             (Inr (), wk, take k (output_callbacks self)) \<and>
           (output_callbacks self ! k) r wk = (Some e, w') \<and>
           called = take (Suc k) (output_callbacks self))"
    using run_callbacks_Inl[of "output_callbacks self" r w _ w' called] o by blast
  ultimately have first: "\<exists>res w' called. OutputTestRecord self r w = (res, w', called) \<and>
     prefix called (output_callbacks self) \<and>
     (res = Inr () \<longrightarrow> called = output_callbacks self) \<and>
     (\<forall>e. res = Inl e \<longrightarrow>
        (\<exists>k<length (output_callbacks self). \<exists>wk.
           run_callbacks (take k (output_callbacks self)) r w =
             (Inr (), wk, take k (output_callbacks self)) \<and>
           (output_callbacks self ! k) r wk = (Some e, w') \<and>
           called = take (Suc k) (output_callbacks self)))"
    using o by (simp add: OutputTestRecord_def)
  have second: "(\<forall>k<length (output_callbacks self).
        fst ((output_callbacks self ! k) r
          (foldl (\<lambda>v cb. snd (cb r v)) w (take k (output_callbacks self)))) = None) \<longrightarrow>
      OutputTestRecord self r w =
        (Inr (), foldl (\<lambda>v cb. snd (cb r v)) w (output_callbacks self), output_callbacks self)"
    unfolding OutputTestRecord_def using run_callbacks_all_return[of "output_callbacks self" r w]
    by blast
  have third: "\<forall>k e w'. k < length (output_callbacks self) \<and>
        (\<forall>j<k. fst ((output_callbacks self ! j) r
          (foldl (\<lambda>v cb. snd (cb r v)) w (take j (output_callbacks self)))) = None) \<and>
        (output_callbacks self ! k) r
          (foldl (\<lambda>v cb. snd (cb r v)) w (take k (output_callbacks self))) = (Some e, w') \<longrightarrow>
      OutputTestRecord self r w = (Inl e, w', take (Suc k) (output_callbacks self))"
    unfolding OutputTestRecord_def
    using run_callbacks_first_raise[of _ "output_callbacks self" r w] by blast
  from first second third show ?thesis by blast
qed

theorem OutputTestRecord_stops_at_first_raise_witness:
  "fst (cb_log ''first'' (PyObj 9) []) = None \<and>
   fst (cb_log ''second'' (PyObj 9) [''first'']) = None \<and>
   OutputTestRecord
     ((example_test [])\<lparr>output_callbacks := [cb_log ''first'', cb_log ''second'']\<rparr>)
     (PyObj 9) [] =
     (Inr (), [''first'', ''second''], [cb_log ''first'', cb_log ''second'']) \<and>
   (1::nat) < length example_callbacks \<and>
   example_callbacks ! 1 = cb_fail ''boom'' \<and>
   cb_fail ''boom'' (PyObj 9) [''first''] = (Some (OtherError ''boom''), [''first'']) \<and>
   OutputTestRecord ((example_test [])\<lparr>output_callbacks := example_callbacks\<rparr>) (PyObj 9) [] =
     (Inl (OtherError ''boom''), [''first''], take (Suc 1) example_callbacks) \<and>
   take (Suc 1) example_callbacks = [cb_log ''first'', cb_fail ''boom''] \<and>
   prefix (take (Suc 1) example_callbacks) example_callbacks"
proof -
  let ?two = "[cb_log ''first'', cb_log ''second'']"
  let ?ok = "(example_test [])\<lparr>output_callbacks := ?two\<rparr>"
  let ?bad = "(example_test [])\<lparr>output_callbacks := example_callbacks\<rparr>"
  let ?step = "\<lambda>v cb. snd (cb (PyObj 9) v)"
  have o: "output_callbacks ?ok = ?two" "output_callbacks ?bad = example_callbacks"
    by simp_all
  have a: "\<forall>k<length ?two. fst ((?two ! k) (PyObj 9) (foldl ?step [] (take k ?two))) = None"
    by (simp add: cb_log_def less_Suc_eq nth_Cons')
  have fo: "foldl ?step [] ?two = [''first'', ''second'']"
    by (simp add: cb_log_def)
  have l: "(1::nat) < length example_callbacks" by (simp add: example_callbacks_def)
  have b: "\<forall>j<1. fst ((example_callbacks ! j) (PyObj 9)
        (foldl ?step [] (take j example_callbacks))) = None"
    by (simp add: example_callbacks_def cb_log_def)
  have c: "(example_callbacks ! 1) (PyObj 9) (foldl ?step [] (take 1 example_callbacks)) =
      (Some (OtherError ''boom''), [''first''])"
    by (simp add: example_callbacks_def cb_log_def cb_fail_def)
  have p: "prefix (take (Suc 1) example_callbacks) example_callbacks"
    by (rule take_is_prefix)
  from OutputTestRecord_stops_at_first_raise[of ?ok "PyObj 9" "[]"] a
  have e: "OutputTestRecord ?ok (PyObj 9) [] = (Inr (), foldl ?step [] ?two, ?two)"
    unfolding o by blast
  from OutputTestRecord_stops_at_first_raise[of ?bad "PyObj 9" "[]"] l b c
  have f: "OutputTestRecord ?bad (PyObj 9) [] =
      (Inl (OtherError ''boom''), [''first''], take (Suc 1) example_callbacks)"
    unfolding o by blast
  have g: "fst (cb_log ''first'' (PyObj 9) []) = None"
    "fst (cb_log ''second'' (PyObj 9) [''first'']) = None"
    "example_callbacks ! 1 = cb_fail ''boom''"
    "cb_fail ''boom'' (PyObj 9) [''first''] = (Some (OtherError ''boom''), [''first''])"
    "take (Suc 1) example_callbacks = [cb_log ''first'', cb_fail ''boom'']"
    by (simp_all add: example_callbacks_def cb_log_def cb_fail_def)
  from e have e': "OutputTestRecord ?ok (PyObj 9) [] =
      (Inr (), [''first'', ''second''], [cb_log ''first'', cb_log ''second''])"
    unfolding fo .
  from g e' l f p show ?thesis by blast
qed

text \<open>
  The claim as the specification words it fails: of three registered callbacks the
  second raises; the third is never called (the log lacks its entry) and the exception
  is the outcome of \<^verbatim>\<open>OutputTestRecord\<close>.
\<close>

theorem OutputTestRecord_raise_counterexample:
  "OutputTestRecord ((example_test [])\<lparr>output_callbacks := example_callbacks\<rparr>) (PyObj 9) [] =
     (Inl (OtherError ''boom''), [''first''], [cb_log ''first'', cb_fail ''boom'']) \<and>
   length [cb_log ''first'', cb_fail ''boom''] < length example_callbacks \<and>
   ''third'' \<notin> set [''first'']"
  by (simp add: OutputTestRecord_def example_test_def example_callbacks_def cb_log_def
      cb_fail_def)

subsection \<open>Registering callbacks\<close>





subsection \<open>Construction\<close>

text \<open>
  Claim C4, as the code has it. The constructor does not compute the plug type map. When
  the union of the parameters returns, the construction succeeds for every list of
  phases, conflicting plug requirements included, and keeps the phases as given; what it
  returns does not depend on the \<^verbatim>\<open>plugs\<close> attribute of any phase. The property
  \<^verbatim>\<open>plug_type_map\<close> is computed when it is accessed, from the Test and the phases as
  they are then, and that access raises \<^verbatim>\<open>DuplicatePlugError\<close> exactly when the
  requirements conflict; the access returns a result and changes nothing.
\<close>

theorem Test_init_ignores_plugs:
  assumes "union_params (List.map_filter (\<lambda>phase. parameters (h phase)) ps) = Inr u"
  shows "\<exists>self :: 'w test. Test_init (Inr fr) union_params h ps = Inr self \<and>
           phases self = ps \<and>
           ((\<exists>plug. plug_type_map h self = Inl (DuplicatePlugError plug)) \<longleftrightarrow>
              plug_conflict h ps) \<and>
           Test_init (Inr fr) union_params (h(p := (h p)\<lparr>plugs := d\<rparr>)) ps = Inr self"
proof -
  obtain self :: "'w test" where self: "self = \<lparr>phases = ps, output_callbacks = [],
      filename = frame_basename fr, docstring = frame_getdoc fr, code = frame_getsource fr,
      test_parameters = u\<rparr>" by simp
  have i: "Test_init (Inr fr) union_params h ps = Inr self"
    using assms by (simp add: Test_init_def self)
  have "(\<lambda>phase. parameters ((h(p := (h p)\<lparr>plugs := d\<rparr>)) phase)) =
      (\<lambda>phase. parameters (h phase))"
    by (auto simp: fun_eq_iff)
  then have j: "Test_init (Inr fr) union_params (h(p := (h p)\<lparr>plugs := d\<rparr>)) ps = Inr self"
    using assms by (simp add: Test_init_def self)
  have p: "phases self = ps" by (simp add: self)
  have "(\<exists>plug. plug_type_map h self = Inl (DuplicatePlugError plug)) \<longleftrightarrow> plug_conflict h ps"
    using plug_type_map_Inl_iff[of h self] by (simp add: p)
  with i j p show ?thesis by blast
qed

theorem Test_init_ignores_plugs_witness:
  "example_union (List.map_filter (\<lambda>phase. parameters (example_heap phase)) [0, 1]) =
     Inr (PyObj 0) \<and>
   Test_init (Inr example_frame) example_union example_heap [0, 1] =
     Inr (example_test [0, 1]) \<and>
   plug_conflict example_heap [0, 1] \<and>
   (\<exists>plug. plug_type_map example_heap (example_test [0, 1]) = Inl (DuplicatePlugError plug))"
proof -
  have u: "example_union (List.map_filter (\<lambda>phase. parameters (example_heap phase)) [0, 1]) =
      Inr (PyObj 0)"
    by (simp add: example_union_def)
  have c: "plug_conflict example_heap [0, 1]" by code_simp
  have i: "Test_init (Inr example_frame) example_union example_heap [0, 1] =
      Inr (example_test [0, 1])"
    by (simp add: Test_init_def example_frame_def example_union_def example_test_def)
  from u Test_init_ignores_plugs[where ?'w = "string list" and union_params = example_union
      and u = "PyObj 0" and fr = example_frame and h = example_heap and ps = "[0, 1]"]
  obtain self :: "string list test" where
    s: "Test_init (Inr example_frame) example_union example_heap [0, 1] = Inr self"
      "(\<exists>plug. plug_type_map example_heap self = Inl (DuplicatePlugError plug)) \<longleftrightarrow>
         plug_conflict example_heap [0, 1]"
    by blast
  from s(1) i have "self = example_test [0, 1]" by simp
  with s c u i show ?thesis by simp
qed

text \<open>
  The claim as the specification words it fails: the construction of a Test from two
  phases that require the plug \<^verbatim>\<open>b\<close> (and \<^verbatim>\<open>a\<close>) with two distinct types succeeds;
  \<^verbatim>\<open>DuplicatePlugError\<close> is raised only later, by the access to \<^verbatim>\<open>plug_type_map\<close>.
\<close>

theorem Test_init_conflict_counterexample:
  "Test_init (Inr example_frame) example_union example_heap [0, 1] =
     Inr (example_test [0, 1]) \<and>
   plug_conflict example_heap [0, 1] \<and>
   plug_type_map example_heap (example_test [0, 1]) = Inl (DuplicatePlugError ''b'')"
proof -
  have c: "plug_conflict example_heap [0, 1]" by code_simp
  have i: "Test_init (Inr example_frame) example_union example_heap [0, 1] =
      Inr (example_test [0, 1])"
    by (simp add: Test_init_def example_frame_def example_union_def example_test_def)
  have e: "plug_type_map example_heap (example_test [0, 1]) = Inl (DuplicatePlugError ''b'')"
    by (simp add: example_heap_def plain_phase_def example_test_def plug_type_map_def
        chain_plugs_def)
  from c i e show ?thesis by blast
qed

text \<open>
  Claim C10. A Test can be constructed from no phase at all: when the introspection of
  the caller succeeds and the union of no parameter list returns, the constructor returns
  a Test with no phases and an empty list of output callbacks, and its plug type map is
  the empty dict.
\<close>

theorem Test_init_no_phases:
  assumes "union_params [] = Inr u"
  shows "\<exists>self :: 'w test. Test_init (Inr fr) union_params h [] = Inr self \<and>
           phases self = [] \<and> output_callbacks self = [] \<and>
           plug_type_map h self = Inr Map.empty"
  using assms by (simp add: Test_init_def plug_type_map_def chain_plugs_def)

theorem Test_init_no_phases_witness:
  "example_union [] = Inr (PyObj 0) \<and>
   Test_init (Inr example_frame) example_union example_heap [] = Inr (example_test []) \<and>
   phases (example_test []) = [] \<and> output_callbacks (example_test []) = [] \<and>
   plug_type_map example_heap (example_test []) = Inr Map.empty"
proof -
  have u: "example_union [] = Inr (PyObj 0)" by (simp add: example_union_def)
  have i: "Test_init (Inr example_frame) example_union example_heap [] = Inr (example_test [])"
    by (simp add: Test_init_def example_frame_def example_union_def example_test_def)
  from u Test_init_no_phases[where ?'w = "string list" and union_params = example_union
      and u = "PyObj 0" and fr = example_frame and h = example_heap]
  obtain self :: "string list test" where
    s: "Test_init (Inr example_frame) example_union example_heap [] = Inr self"
      "phases self = []" "output_callbacks self = []"
      "plug_type_map example_heap self = Inr Map.empty"
    by blast
  from s(1) i have "self = example_test []" by simp
  with s u i show ?thesis by simp
qed

end
